theory Spec2Isabelle
  imports Main
begin

section \<open>Duplicate detection in the spreadsheet adapter\<close>

text \<open>
  The development embeds \<^verbatim>\<open>processDuplicates\<close> of the spreadsheet service: the part
  between the decoded array of rows (\<^verbatim>\<open>sheet_to_json(sheet, {header: 1})\<close>) and the
  array of rows handed to \<^verbatim>\<open>aoa_to_sheet\<close>. Reading and writing the workbook are the
  spreadsheet library's and are not modelled.
\<close>

subsection \<open>Cell values and options\<close>

text \<open>
  A decoded row is a JavaScript array. A cell the sheet does not have is a hole of that
  array (\<open>JHole\<close>: reading it gives \<^verbatim>\<open>undefined\<close>); the other cells are \<^verbatim>\<open>null\<close>,
  a boolean, a number or a string. Numbers are modelled as integers, which print as
  their decimal digits (true of JavaScript for integral values below \<open>10\<^sup>2\<^sup>1\<close> in
  magnitude); fractional numbers are outside the model. A \<open>char\<close> stands for the
  UTF-16 code unit of the same number, so strings are those over U+0000..U+00FF.
\<close>

datatype cell = JHole | JNull | JBool bool | JNum int | JStr string

text \<open>\<^verbatim>\<open>DuplicateOptions\<close>: the caller passes \<^verbatim>\<open>'row'\<close> or \<^verbatim>\<open>'col1'\<close>, and
  \<^verbatim>\<open>'remove'\<close> or \<^verbatim>\<open>'highlight'\<close>; the function itself compares plain strings.\<close>

record DuplicateOptions =
  criteria :: string
  mode :: string

subsection \<open>The JavaScript built-ins the key uses\<close>

definition digitChar :: "nat \<Rightarrow> char" where
  "digitChar d = ''0123456789abcdef'' ! d"

fun natToString :: "nat \<Rightarrow> string" where
  "natToString n =
     (if n < 10 then [digitChar n] else natToString (n div 10) @ [digitChar (n mod 10)])"

declare natToString.simps [simp del]

definition numberToString :: "int \<Rightarrow> string" where
  "numberToString n =
     (if n < 0 then CHR ''-'' # natToString (nat (- n)) else natToString (nat n))"

text \<open>\<^verbatim>\<open>x || ''\<close>: the falsy values (\<^verbatim>\<open>undefined\<close>, \<^verbatim>\<open>null\<close>, \<^verbatim>\<open>false\<close>, \<^verbatim>\<open>0\<close>,
  the empty string) give the empty string.\<close>

fun falsy :: "cell \<Rightarrow> bool" where
  "falsy JHole = True"
| "falsy JNull = True"
| "falsy (JBool b) = (\<not> b)"
| "falsy (JNum n) = (n = 0)"
| "falsy (JStr s) = (s = [])"

definition orEmpty :: "cell \<Rightarrow> cell" where
  "orEmpty c = (if falsy c then JStr [] else c)"

text \<open>\<^verbatim>\<open>String(x)\<close>.\<close>

fun toStringJS :: "cell \<Rightarrow> string" where
  "toStringJS JHole = ''undefined''"
| "toStringJS JNull = ''null''"
| "toStringJS (JBool b) = (if b then ''true'' else ''false'')"
| "toStringJS (JNum n) = numberToString n"
| "toStringJS (JStr s) = s"

text \<open>\<^verbatim>\<open>trim\<close> removes white space and line terminators from both ends; below U+0100
  these are TAB, LF, VT, FF, CR, SPACE and NO-BREAK SPACE.\<close>

definition isWhiteSpace :: "char \<Rightarrow> bool" where
  "isWhiteSpace c = (of_char c \<in> {9, 10, 11, 12, 13, 32, 160 :: nat})"

definition trim :: "string \<Rightarrow> string" where
  "trim s = rev (dropWhile isWhiteSpace (rev (dropWhile isWhiteSpace s)))"

text \<open>\<^verbatim>\<open>toLowerCase\<close>: below U+0100 the letters with a lower-case mapping are A..Z,
  U+00C0..U+00D6 and U+00D8..U+00DE, each mapped 32 code units up.\<close>

definition lowerChar :: "char \<Rightarrow> char" where
  "lowerChar c =
     (let n = (of_char c :: nat)
      in if (65 \<le> n \<and> n \<le> 90) \<or> (192 \<le> n \<and> n \<le> 214) \<or> (216 \<le> n \<and> n \<le> 222)
         then char_of (n + 32) else c)"

definition toLowerCase :: "string \<Rightarrow> string" where
  "toLowerCase s = map lowerChar s"

text \<open>\<^verbatim>\<open>JSON.stringify\<close> of a string: quoted, with the quote, the backslash and the
  control characters below U+0020 escaped.\<close>

definition quoteChar :: "char \<Rightarrow> string" where
  "quoteChar c =
     (let n = (of_char c :: nat)
      in if n = 8 then [CHR 0x5C, CHR ''b'']
         else if n = 9 then [CHR 0x5C, CHR ''t'']
         else if n = 10 then [CHR 0x5C, CHR ''n'']
         else if n = 12 then [CHR 0x5C, CHR ''f'']
         else if n = 13 then [CHR 0x5C, CHR ''r'']
         else if n = 34 then [CHR 0x5C, CHR 0x22]
         else if n = 92 then [CHR 0x5C, CHR 0x5C]
         else if n < 32 then
           [CHR 0x5C, CHR ''u'', CHR ''0'', CHR ''0'', digitChar (n div 16), digitChar (n mod 16)]
         else [c])"

definition quoteJSONString :: "string \<Rightarrow> string" where
  "quoteJSONString s = CHR 0x22 # concat (map quoteChar s) @ [CHR 0x22]"

text \<open>An array element: a hole (read as \<^verbatim>\<open>undefined\<close>) and \<^verbatim>\<open>null\<close> both print as
  \<^verbatim>\<open>null\<close>.\<close>

fun stringifyCell :: "cell \<Rightarrow> string" where
  "stringifyCell JHole = ''null''"
| "stringifyCell JNull = ''null''"
| "stringifyCell (JBool b) = (if b then ''true'' else ''false'')"
| "stringifyCell (JNum n) = numberToString n"
| "stringifyCell (JStr s) = quoteJSONString s"

fun joinComma :: "string list \<Rightarrow> string" where
  "joinComma [] = []"
| "joinComma [x] = x"
| "joinComma (x # y # ys) = x @ CHR '','' # joinComma (y # ys)"

definition JSON_stringify :: "cell list \<Rightarrow> string" where
  "JSON_stringify row = CHR ''['' # joinComma (map stringifyCell row) @ [CHR '']'']"

subsection \<open>The scan for duplicates\<close>

text \<open>\<^verbatim>\<open>row[0]\<close>: \<^verbatim>\<open>undefined\<close> when the row has no cell.\<close>

definition firstCell :: "cell list \<Rightarrow> cell" where
  "firstCell row = (case row of [] \<Rightarrow> JHole | c # _ \<Rightarrow> c)"

definition rowKey :: "DuplicateOptions \<Rightarrow> cell list \<Rightarrow> string" where
  "rowKey options row =
     (if criteria options = ''row'' then JSON_stringify row
      else toLowerCase (trim (toStringJS (orEmpty (firstCell row)))))"

record scan_state =
  seen :: "string set"
  duplicatesIndices :: "nat set"

text \<open>The body of the \<^verbatim>\<open>forEach\<close> callback, at row \<open>row\<close> with index \<open>i\<close>.\<close>

definition visit :: "DuplicateOptions \<Rightarrow> scan_state \<Rightarrow> cell list \<Rightarrow> nat \<Rightarrow> scan_state" where
  "visit options st row i =
     (let key = rowKey options row
      in if key = [] \<or> key = ''[]'' then st
         else if key \<in> seen st then st\<lparr>duplicatesIndices := insert i (duplicatesIndices st)\<rparr>
         else st\<lparr>seen := insert key (seen st)\<rparr>)"

fun forEachRow :: "DuplicateOptions \<Rightarrow> cell list list \<Rightarrow> nat \<Rightarrow> scan_state \<Rightarrow> scan_state" where
  "forEachRow options [] i st = st"
| "forEachRow options (row # rest) i st = forEachRow options rest (Suc i) (visit options st row i)"

definition scan :: "DuplicateOptions \<Rightarrow> cell list list \<Rightarrow> scan_state" where
  "scan options rows = forEachRow options rows 0 \<lparr>seen = {}, duplicatesIndices = {}\<rparr>"

subsection \<open>The output rows\<close>

record border_edge =
  edge_style :: string
  edge_rgb :: string

record cell_style =
  fill_rgb :: string
  font_rgb :: string
  font_bold :: bool
  border_top :: border_edge
  border_bottom :: border_edge
  border_left :: border_edge
  border_right :: border_edge

record styled_cell =
  cell_v :: cell
  cell_t :: string
  cell_s :: "cell_style option"

definition thinBlack :: border_edge where
  "thinBlack = \<lparr>edge_style = ''thin'', edge_rgb = ''000000''\<rparr>"

definition highlightStyle :: cell_style where
  "highlightStyle =
     \<lparr>fill_rgb = ''FFFF00'', font_rgb = ''000000'', font_bold = False,
      border_top = thinBlack, border_bottom = thinBlack,
      border_left = thinBlack, border_right = thinBlack\<rparr>"

definition typeTag :: "cell \<Rightarrow> string" where
  "typeTag c = (case c of JNum _ \<Rightarrow> ''n'' | _ \<Rightarrow> ''s'')"

text \<open>The inner \<^verbatim>\<open>row.map\<close>: a hole of the row stays a hole, every other cell becomes
  a cell object.\<close>

definition styleCell :: "bool \<Rightarrow> cell \<Rightarrow> styled_cell option" where
  "styleCell marked c =
     (case c of
        JHole \<Rightarrow> None
      | _ \<Rightarrow> Some \<lparr>cell_v = c, cell_t = typeTag c,
                  cell_s = (if marked then Some highlightStyle else None)\<rparr>)"

text \<open>\<^verbatim>\<open>rows.filter((_, i) => ...)\<close> and \<^verbatim>\<open>rows.map((row, i) => ...)\<close>, the index
  counted from \<open>i\<close>.\<close>

fun filterIndexed :: "('a \<Rightarrow> nat \<Rightarrow> bool) \<Rightarrow> 'a list \<Rightarrow> nat \<Rightarrow> 'a list" where
  "filterIndexed p [] i = []"
| "filterIndexed p (x # xs) i =
     (if p x i then x # filterIndexed p xs (Suc i) else filterIndexed p xs (Suc i))"

fun mapIndexed :: "('a \<Rightarrow> nat \<Rightarrow> 'b) \<Rightarrow> 'a list \<Rightarrow> nat \<Rightarrow> 'b list" where
  "mapIndexed f [] i = []"
| "mapIndexed f (x # xs) i = f x i # mapIndexed f xs (Suc i)"

datatype sheet_rows =
  FinalRows "cell list list"
| StyledRows "styled_cell option list list"

definition styleRow :: "nat set \<Rightarrow> cell list \<Rightarrow> nat \<Rightarrow> styled_cell option list" where
  "styleRow dups row i =
     (let isDuplicate = (i \<in> dups); isHeader = (i = 0)
      in map (styleCell (isDuplicate \<and> \<not> isHeader)) row)"

definition processDuplicates :: "cell list list \<Rightarrow> DuplicateOptions \<Rightarrow> sheet_rows" where
  "processDuplicates rows options =
     (let dups = duplicatesIndices (scan options rows)
      in if mode options = ''remove''
         then FinalRows (filterIndexed (\<lambda>_ i. i \<notin> dups) rows 0)
         else StyledRows (mapIndexed (styleRow dups) rows 0))"

subsection \<open>Notions used in the statements and proofs\<close>

text \<open>The test of the callback that leaves a row out of the scan.\<close>

definition skipped :: "string \<Rightarrow> bool" where
  "skipped key = (key = [] \<or> key = ''[]'')"

text \<open>The rows the scan does not flag, computed in one pass from the keys seen so far;
  \<open>remove_kept\<close> shows it is what the filter of \<open>processDuplicates\<close> returns.\<close>

fun kept :: "('a \<Rightarrow> string) \<Rightarrow> string set \<Rightarrow> 'a list \<Rightarrow> 'a list" where
  "kept K S [] = []"
| "kept K S (r # rs) =
     (if skipped (K r) then r # kept K S rs
      else if K r \<in> S then kept K S rs
      else r # kept K (insert (K r) S) rs)"

text \<open>A first cell that is missing, \<^verbatim>\<open>null\<close>, or a string of white space only
  (the empty string included).\<close>

definition emptyFirstCell :: "cell list \<Rightarrow> bool" where
  "emptyFirstCell row =
     (case row of
        [] \<Rightarrow> True
      | JHole # _ \<Rightarrow> True
      | JNull # _ \<Rightarrow> True
      | JStr s # _ \<Rightarrow> list_all isWhiteSpace s
      | _ \<Rightarrow> False)"

section \<open>Properties\<close>

subsection \<open>The scan\<close>

lemma seen_visit:
  "seen (visit options st row i) =
     (if skipped (rowKey options row) then seen st else insert (rowKey options row) (seen st))"
  by (auto simp: visit_def skipped_def Let_def)

lemma dups_visit:
  "duplicatesIndices (visit options st row i) =
     (if \<not> skipped (rowKey options row) \<and> rowKey options row \<in> seen st
      then insert i (duplicatesIndices st) else duplicatesIndices st)"
  by (auto simp: visit_def skipped_def Let_def)

lemma seen_forEachRow:
  "seen (forEachRow options rows i st) =
     seen st \<union> {k \<in> rowKey options ` set rows. \<not> skipped k}"
  by (induction rows arbitrary: i st) (auto simp: seen_visit)

lemma dups_forEachRow_iff:
  "n \<in> duplicatesIndices (forEachRow options rows i st) \<longleftrightarrow>
     n \<in> duplicatesIndices st \<or>
     (i \<le> n \<and> n < i + length rows \<and> \<not> skipped (rowKey options (rows ! (n - i))) \<and>
      rowKey options (rows ! (n - i)) \<in> seen st \<union> rowKey options ` set (take (n - i) rows))"
proof (induction rows arbitrary: i st)
  case Nil
  then show ?case by auto
next
  case (Cons row rest)
  show ?case
  proof (cases "n \<le> i")
    case True
    then show ?thesis
      by (auto simp: Cons.IH dups_visit seen_visit)
  next
    case False
    then obtain m where m: "n - i = Suc m" "n - Suc i = m"
      by (metis Suc_diff_Suc not_le_imp_less)
    with False show ?thesis
      by (auto simp: Cons.IH dups_visit seen_visit)
  qed
qed

lemma dups_scan_iff:
  "n \<in> duplicatesIndices (scan options rows) \<longleftrightarrow>
     n < length rows \<and> \<not> skipped (rowKey options (rows ! n)) \<and>
     rowKey options (rows ! n) \<in> rowKey options ` set (take n rows)"
  by (simp add: scan_def dups_forEachRow_iff)

lemma in_image_take_iff:
  "n \<le> length xs \<Longrightarrow> k \<in> f ` set (take n xs) \<longleftrightarrow> (\<exists>j<n. f (xs ! j) = k)"
proof
  assume "k \<in> f ` set (take n xs)"
  then obtain x where x: "x \<in> set (take n xs)" "k = f x" by blast
  then obtain j where "j < length (take n xs)" "take n xs ! j = x"
    by (auto simp: in_set_conv_nth)
  with x show "\<exists>j<n. f (xs ! j) = k" by auto
next
  assume n: "n \<le> length xs" and "\<exists>j<n. f (xs ! j) = k"
  then obtain j where j: "j < n" "f (xs ! j) = k" by blast
  with n have "take n xs ! j \<in> set (take n xs)"
    by (intro nth_mem) simp
  with j show "k \<in> f ` set (take n xs)" by auto
qed


lemma filterIndexed_nths:
  "filterIndexed (\<lambda>_ k. k \<notin> D) xs i = nths xs {j. i + j \<notin> D}"
  by (induction xs arbitrary: i) (auto simp: nths_Cons)

lemma kept_idem: "kept K S (kept K S rs) = kept K S rs"
  by (induction rs arbitrary: S) auto

lemma kept_fresh:
  "j < length (kept K S rs) \<Longrightarrow> \<not> skipped (K (kept K S rs ! j)) \<Longrightarrow>
   K (kept K S rs ! j) \<notin> S \<union> K ` set (take j (kept K S rs))"
proof (induction rs arbitrary: S j)
  case Nil
  then show ?case by simp
next
  case (Cons r rs)
  then show ?case
    by (cases j) (auto split: if_splits)
qed




lemma filterIndexed_forEachRow:
  "\<forall>n\<in>duplicatesIndices st. n < i \<Longrightarrow>
   filterIndexed (\<lambda>_ k. k \<notin> duplicatesIndices (forEachRow options rows i st)) rows i =
   kept (rowKey options) (seen st) rows"
proof (induction rows arbitrary: i st)
  case Nil
  then show ?case by simp
next
  case (Cons row rest)
  let ?st = "visit options st row i"
  have bound: "\<forall>n\<in>duplicatesIndices ?st. n < Suc i"
    using Cons.prems by (auto simp: dups_visit)
  have head: "i \<in> duplicatesIndices (forEachRow options rest (Suc i) ?st) \<longleftrightarrow>
              \<not> skipped (rowKey options row) \<and> rowKey options row \<in> seen st"
    using Cons.prems by (auto simp: dups_forEachRow_iff dups_visit)
  show ?case
    using Cons.IH [OF bound] head by (auto simp: seen_visit insert_absorb)
qed

lemma remove_kept:
  "filterIndexed (\<lambda>_ k. k \<notin> duplicatesIndices (scan options rows)) rows 0 =
   kept (rowKey options) {} rows"
  unfolding scan_def by (rule filterIndexed_forEachRow [where st = "\<lparr>seen = {}, duplicatesIndices = {}\<rparr>", simplified])

lemma remove_nths:
  "filterIndexed (\<lambda>_ k. k \<notin> D) rows 0 = nths rows (- D)"
  by (simp add: filterIndexed_nths Compl_eq)

lemma dups_scan_bound: "duplicatesIndices (scan options rows) \<subseteq> {..<length rows}"
  by (auto simp: dups_scan_iff)

lemma length_nths_compl:
  assumes "D \<subseteq> {..<length xs}"
  shows "length (nths xs (- D)) = length xs - card D"
proof -
  have "{i. i < length xs \<and> i \<in> - D} = {..<length xs} - D" by auto
  moreover have "finite D" using assms finite_subset by blast
  ultimately show ?thesis
    using assms by (simp add: length_nths card_Diff_subset)
qed

lemma length_mapIndexed: "length (mapIndexed f xs i) = length xs"
  by (induction xs arbitrary: i) auto

lemma nth_mapIndexed: "k < length xs \<Longrightarrow> mapIndexed f xs i ! k = f (xs ! k) (i + k)"
  by (induction xs arbitrary: i k) (auto simp: nth_Cons')

lemma natToString_not_Nil: "natToString n \<noteq> []"
  by (subst natToString.simps) simp

lemma stringifyCell_not_Nil: "stringifyCell c \<noteq> []"
  by (cases c) (auto simp: numberToString_def natToString_not_Nil quoteJSONString_def)

lemma joinComma_Nil_iff: "joinComma xs = [] \<longleftrightarrow> xs = [] \<or> xs = [[]]"
  by (induction xs rule: joinComma.induct) auto

lemma JSON_stringify_skipped_iff: "skipped (JSON_stringify row) \<longleftrightarrow> row = []"
  by (cases row) (auto simp: skipped_def JSON_stringify_def joinComma_Nil_iff stringifyCell_not_Nil)

lemma trim_whitespace: "list_all isWhiteSpace s \<Longrightarrow> trim s = []"
proof -
  assume "list_all isWhiteSpace s"
  then have "dropWhile isWhiteSpace s = []"
    by (induction s) auto
  then show ?thesis by (simp add: trim_def del: dropWhile_eq_Nil_conv)
qed

lemma falsy_key: "criteria options \<noteq> ''row'' \<Longrightarrow> falsy (firstCell row) \<Longrightarrow> rowKey options row = []"
  by (simp add: rowKey_def orEmpty_def trim_def toLowerCase_def)

lemma emptyFirstCell_key:
  "criteria options \<noteq> ''row'' \<Longrightarrow> emptyFirstCell row \<Longrightarrow> rowKey options row = []"
  by (auto simp: rowKey_def orEmpty_def emptyFirstCell_def firstCell_def toLowerCase_def
      trim_whitespace split: list.splits cell.splits)

lemma dups_scan_earlier_iff:
  "n \<in> duplicatesIndices (scan options rows) \<longleftrightarrow>
     n < length rows \<and> \<not> skipped (rowKey options (rows ! n)) \<and>
     (\<exists>j<n. rowKey options (rows ! j) = rowKey options (rows ! n))"
proof -
  have "n < length rows \<Longrightarrow>
        rowKey options (rows ! n) \<in> rowKey options ` set (take n rows) \<longleftrightarrow>
        (\<exists>j<n. rowKey options (rows ! j) = rowKey options (rows ! n))"
    by (rule in_image_take_iff) simp
  then show ?thesis unfolding dups_scan_iff by blast
qed

lemma seen_scan:
  "seen (scan options rows) = {k \<in> rowKey options ` set rows. \<not> skipped k}"
  by (simp add: scan_def seen_forEachRow)

lemma rowKey_cong:
  "(criteria options = ''row'') = (criteria options' = ''row'') \<Longrightarrow>
   rowKey options = rowKey options'"
  by (auto simp: rowKey_def fun_eq_iff)

lemma visit_cong:
  "rowKey options = rowKey options' \<Longrightarrow> visit options = visit options'"
  by (simp add: visit_def fun_eq_iff)

lemma forEachRow_cong:
  "visit options = visit options' \<Longrightarrow>
   forEachRow options rows i st = forEachRow options' rows i st"
  by (induction rows arbitrary: i st) simp_all

lemma scan_cong:
  "(criteria options = ''row'') = (criteria options' = ''row'') \<Longrightarrow>
   scan options rows = scan options' rows"
  unfolding scan_def by (intro forEachRow_cong visit_cong rowKey_cong)

lemma processDuplicates_remove_kept:
  "mode options = ''remove'' \<Longrightarrow>
   processDuplicates rows options = FinalRows (kept (rowKey options) {} rows)"
  by (simp add: processDuplicates_def remove_kept)

lemma skipped_empty_key:
  "(if criteria options = ''row'' then row = [] else emptyFirstCell row) \<Longrightarrow>
   skipped (rowKey options row)"
proof (cases "criteria options = ''row''")
  case True
  moreover assume "if criteria options = ''row'' then row = [] else emptyFirstCell row"
  ultimately show ?thesis
    by (simp add: rowKey_def JSON_stringify_skipped_iff)
next
  case False
  moreover assume "if criteria options = ''row'' then row = [] else emptyFirstCell row"
  ultimately show ?thesis
    by (simp add: emptyFirstCell_key skipped_def)
qed

lemma skipped_not_flagged:
  "skipped (rowKey options (rows ! i)) \<Longrightarrow>
   i \<notin> duplicatesIndices (scan options rows) \<and> rowKey options (rows ! i) \<notin> seen (scan options rows)"
  by (simp add: dups_scan_earlier_iff seen_scan)

lemma kept_keys_fresh:
  assumes "i < j" and "j < length (kept K {} rs)" and "\<not> skipped (K (kept K {} rs ! j))"
  shows "K (kept K {} rs ! i) \<noteq> K (kept K {} rs ! j)"
proof -
  let ?out = "kept K {} rs"
  have "take j ?out ! i \<in> set (take j ?out)"
    using assms by (intro nth_mem) simp
  then have "K (?out ! i) \<in> K ` set (take j ?out)"
    using assms by simp
  moreover have "K (?out ! j) \<notin> K ` set (take j ?out)"
    using kept_fresh [OF assms(2,3)] by simp
  ultimately show ?thesis by metis
qed

lemma processDuplicates_remove_nths:
  "mode options = ''remove'' \<Longrightarrow>
   processDuplicates rows options =
     FinalRows (nths rows (- duplicatesIndices (scan options rows)))"
  by (simp add: processDuplicates_def remove_nths)

lemma first_occurrence_kept:
  assumes "i < length rows"
    and "\<forall>j<i. rowKey options (rows ! j) \<noteq> rowKey options (rows ! i)"
  shows "i \<notin> duplicatesIndices (scan options rows)"
    and "rows ! i \<in> set (nths rows (- duplicatesIndices (scan options rows)))"
proof -
  show "i \<notin> duplicatesIndices (scan options rows)"
    using assms by (auto simp: dups_scan_earlier_iff)
  then show "rows ! i \<in> set (nths rows (- duplicatesIndices (scan options rows)))"
    using assms(1) by (auto simp: set_nths)
qed

lemma fullRow_skipped_iff:
  "criteria options = ''row'' \<Longrightarrow> skipped (rowKey options row) \<longleftrightarrow> row = []"
  by (simp add: rowKey_def JSON_stringify_skipped_iff)

lemma processDuplicates_highlight_nth:
  "mode options \<noteq> ''remove'' \<Longrightarrow> j < length rows \<Longrightarrow>
   \<exists>out. processDuplicates rows options = StyledRows out \<and>
     out ! j = map (styleCell (j \<in> duplicatesIndices (scan options rows) \<and> j \<noteq> 0)) (rows ! j)"
  by (simp add: processDuplicates_def nth_mapIndexed styleRow_def)

subsection \<open>Which rows are flagged\<close>

text \<open>
  Claim C1: a row is in the duplicate index set if and only if an earlier row (the header
  included) produced the same non-empty key under the criterion.

  The scan flags a row exactly when an earlier row has the same key and the key passes the
  callback's test (\<open>dups_scan_earlier_iff\<close>). That test also drops the key \<^verbatim>\<open>[]\<close>,
  which is meant for the empty row under the row criterion but is applied under the
  first-column criterion too. There a first cell holding the text \<^verbatim>\<open>[]\<close> has the
  non-empty key \<^verbatim>\<open>[]\<close>, and the second of two such rows is not flagged: the table
  below comes back unchanged under \<^verbatim>\<open>remove\<close>.
\<close>

theorem bracket_first_cell_not_flagged:
  "rowKey \<lparr>criteria = ''col1'', mode = ''remove''\<rparr> [JStr ''[]'', JNum 1] = ''[]'' \<and>
   rowKey \<lparr>criteria = ''col1'', mode = ''remove''\<rparr> [JStr ''[]'', JNum 2] = ''[]'' \<and>
   duplicatesIndices (scan \<lparr>criteria = ''col1'', mode = ''remove''\<rparr>
     [[JStr ''[]'', JNum 1], [JStr ''[]'', JNum 2]]) = {} \<and>
   processDuplicates [[JStr ''[]'', JNum 1], [JStr ''[]'', JNum 2]]
     \<lparr>criteria = ''col1'', mode = ''remove''\<rparr> =
   FinalRows [[JStr ''[]'', JNum 1], [JStr ''[]'', JNum 2]]"
  by code_simp

subsection \<open>Removing\<close>

text \<open>
  Claim C2: with the action \<^verbatim>\<open>remove\<close> the output is the input with exactly the rows
  of the duplicate index set left out, the others in their order (\<open>nths\<close> selects the
  rows at the positions outside the set), so it has as many rows as the input less the
  size of the set.
\<close>

theorem remove_output:
  assumes "mode options = ''remove''"
  shows "processDuplicates rows options =
           FinalRows (nths rows (- duplicatesIndices (scan options rows))) \<and>
         length (nths rows (- duplicatesIndices (scan options rows))) =
           length rows - card (duplicatesIndices (scan options rows))"
  using assms
  by (simp add: processDuplicates_def remove_nths length_nths_compl dups_scan_bound)

text \<open>At the scenario of the specification, where row 3 repeats row 1.\<close>

theorem remove_output_witness:
  "mode \<lparr>criteria = ''row'', mode = ''remove''\<rparr> = ''remove'' \<and>
   processDuplicates [[JStr ''Name'', JStr ''Qty''], [JStr ''A'', JNum 1], [JStr ''B'', JNum 2],
       [JStr ''A'', JNum 1], [JStr ''C'', JNum 3], [JStr ''B'', JNum 9]]
     \<lparr>criteria = ''row'', mode = ''remove''\<rparr> =
   FinalRows (nths [[JStr ''Name'', JStr ''Qty''], [JStr ''A'', JNum 1], [JStr ''B'', JNum 2],
       [JStr ''A'', JNum 1], [JStr ''C'', JNum 3], [JStr ''B'', JNum 9]]
     (- duplicatesIndices (scan \<lparr>criteria = ''row'', mode = ''remove''\<rparr>
        [[JStr ''Name'', JStr ''Qty''], [JStr ''A'', JNum 1], [JStr ''B'', JNum 2],
         [JStr ''A'', JNum 1], [JStr ''C'', JNum 3], [JStr ''B'', JNum 9]]))) \<and>
   length (nths [[JStr ''Name'', JStr ''Qty''], [JStr ''A'', JNum 1], [JStr ''B'', JNum 2],
       [JStr ''A'', JNum 1], [JStr ''C'', JNum 3], [JStr ''B'', JNum 9]]
     (- duplicatesIndices (scan \<lparr>criteria = ''row'', mode = ''remove''\<rparr>
        [[JStr ''Name'', JStr ''Qty''], [JStr ''A'', JNum 1], [JStr ''B'', JNum 2],
         [JStr ''A'', JNum 1], [JStr ''C'', JNum 3], [JStr ''B'', JNum 9]]))) =
   length [[JStr ''Name'', JStr ''Qty''], [JStr ''A'', JNum 1], [JStr ''B'', JNum 2],
       [JStr ''A'', JNum 1], [JStr ''C'', JNum 3], [JStr ''B'', JNum 9]] -
   card (duplicatesIndices (scan \<lparr>criteria = ''row'', mode = ''remove''\<rparr>
        [[JStr ''Name'', JStr ''Qty''], [JStr ''A'', JNum 1], [JStr ''B'', JNum 2],
         [JStr ''A'', JNum 1], [JStr ''C'', JNum 3], [JStr ''B'', JNum 9]]))"
proof -
  have h: "mode \<lparr>criteria = ''row'', mode = ''remove''\<rparr> = ''remove''" by simp
  show ?thesis using h remove_output [OF h] by blast
qed

text \<open>
  Claim C5: removing is idempotent. The operation on a table gives an output table, and
  the operation on that output, with the same options, gives it again.
\<close>

theorem remove_idempotent:
  assumes "mode options = ''remove''"
  shows "\<exists>out. processDuplicates rows options = FinalRows out \<and>
               processDuplicates out options = FinalRows out"
  using assms by (simp add: processDuplicates_remove_kept kept_idem)

text \<open>At a table whose third row repeats the first column of the second.\<close>

theorem remove_idempotent_witness:
  "mode \<lparr>criteria = ''col1'', mode = ''remove''\<rparr> = ''remove'' \<and>
   (\<exists>out. processDuplicates [[JStr ''id''], [JStr ''a'', JNum 1], [JStr ''A'', JNum 2]]
            \<lparr>criteria = ''col1'', mode = ''remove''\<rparr> = FinalRows out \<and>
          processDuplicates out \<lparr>criteria = ''col1'', mode = ''remove''\<rparr> = FinalRows out)"
proof -
  have h: "mode \<lparr>criteria = ''col1'', mode = ''remove''\<rparr> = ''remove''" by simp
  show ?thesis using h remove_idempotent [OF h] by blast
qed

text \<open>
  Claim C7 (as amended): with the action \<^verbatim>\<open>remove\<close>, an output row whose key passes
  the callback's test (it is neither empty nor \<^verbatim>\<open>[]\<close>) has a key that no earlier
  output row has; and a row of the input whose key no earlier input row has is not
  flagged and is in the output.
\<close>

theorem remove_keeps_first_occurrences:
  assumes "mode options = ''remove''"
  shows "\<exists>out. processDuplicates rows options = FinalRows out \<and>
           (\<forall>i j. i < j \<and> j < length out \<and>
                  rowKey options (out ! j) \<noteq> [] \<and> rowKey options (out ! j) \<noteq> ''[]'' \<longrightarrow>
                  rowKey options (out ! i) \<noteq> rowKey options (out ! j)) \<and>
           (\<forall>i<length rows.
              (\<forall>j<i. rowKey options (rows ! j) \<noteq> rowKey options (rows ! i)) \<longrightarrow>
              i \<notin> duplicatesIndices (scan options rows) \<and> rows ! i \<in> set out)"
proof -
  let ?out = "kept (rowKey options) {} rows"
  have out: "processDuplicates rows options = FinalRows ?out"
    using assms by (rule processDuplicates_remove_kept)
  have nths: "?out = nths rows (- duplicatesIndices (scan options rows))"
    using out processDuplicates_remove_nths [OF assms, of rows] by simp
  have fresh: "\<forall>i j. i < j \<and> j < length ?out \<and>
                  rowKey options (?out ! j) \<noteq> [] \<and> rowKey options (?out ! j) \<noteq> ''[]'' \<longrightarrow>
                  rowKey options (?out ! i) \<noteq> rowKey options (?out ! j)"
    using kept_keys_fresh [of _ _ "rowKey options" rows] by (simp add: skipped_def)
  have first: "\<forall>i<length rows.
              (\<forall>j<i. rowKey options (rows ! j) \<noteq> rowKey options (rows ! i)) \<longrightarrow>
              i \<notin> duplicatesIndices (scan options rows) \<and> rows ! i \<in> set ?out"
    unfolding nths using first_occurrence_kept [of _ rows options] by blast
  from out fresh first show ?thesis by blast
qed

text \<open>At a table whose third row repeats the first column of the second.\<close>

theorem remove_keeps_first_occurrences_witness:
  "mode \<lparr>criteria = ''col1'', mode = ''remove''\<rparr> = ''remove'' \<and>
   (\<exists>out. processDuplicates [[JStr ''Name''], [JStr ''A'', JNum 1], [JStr ''a '', JNum 2]]
            \<lparr>criteria = ''col1'', mode = ''remove''\<rparr> = FinalRows out \<and>
      (\<forall>i j. i < j \<and> j < length out \<and>
             rowKey \<lparr>criteria = ''col1'', mode = ''remove''\<rparr> (out ! j) \<noteq> [] \<and>
             rowKey \<lparr>criteria = ''col1'', mode = ''remove''\<rparr> (out ! j) \<noteq> ''[]'' \<longrightarrow>
             rowKey \<lparr>criteria = ''col1'', mode = ''remove''\<rparr> (out ! i) \<noteq>
             rowKey \<lparr>criteria = ''col1'', mode = ''remove''\<rparr> (out ! j)) \<and>
      (\<forall>i<length [[JStr ''Name''], [JStr ''A'', JNum 1], [JStr ''a '', JNum 2]].
         (\<forall>j<i. rowKey \<lparr>criteria = ''col1'', mode = ''remove''\<rparr>
                  ([[JStr ''Name''], [JStr ''A'', JNum 1], [JStr ''a '', JNum 2]] ! j) \<noteq>
                rowKey \<lparr>criteria = ''col1'', mode = ''remove''\<rparr>
                  ([[JStr ''Name''], [JStr ''A'', JNum 1], [JStr ''a '', JNum 2]] ! i)) \<longrightarrow>
         i \<notin> duplicatesIndices (scan \<lparr>criteria = ''col1'', mode = ''remove''\<rparr>
                [[JStr ''Name''], [JStr ''A'', JNum 1], [JStr ''a '', JNum 2]]) \<and>
         [[JStr ''Name''], [JStr ''A'', JNum 1], [JStr ''a '', JNum 2]] ! i \<in> set out))"
proof -
  have h: "mode \<lparr>criteria = ''col1'', mode = ''remove''\<rparr> = ''remove''" by simp
  show ?thesis by (rule conjI [OF h remove_keeps_first_occurrences [OF h]])
qed

text \<open>
  The claim as first stated covers every output row. Rows with an empty key are never
  flagged, so they all stay, and the later ones repeat the key of the first: below, two
  rows without a first cell are both in the output and have the same (empty) key.
\<close>

theorem empty_keys_repeat_in_output:
  "processDuplicates [[JStr ''id'', JStr ''qty''], [JHole, JNum 1], [JHole, JNum 2]]
     \<lparr>criteria = ''col1'', mode = ''remove''\<rparr> =
   FinalRows [[JStr ''id'', JStr ''qty''], [JHole, JNum 1], [JHole, JNum 2]] \<and>
   rowKey \<lparr>criteria = ''col1'', mode = ''remove''\<rparr> [JHole, JNum 2] =
   rowKey \<lparr>criteria = ''col1'', mode = ''remove''\<rparr> [JHole, JNum 1]"
  by code_simp

subsection \<open>Highlighting\<close>

text \<open>
  Claim C3: with the action \<^verbatim>\<open>highlight\<close> the output has one row for each input row,
  of the same length; a hole stays a hole and every other cell becomes a cell object
  holding the unchanged value. The cell objects of a row carry the style (yellow fill,
  non-bold black font, thin black border on the four sides) exactly when the row's index
  is in the duplicate index set and is not 0; all other cell objects carry no style.
\<close>

theorem highlight_output:
  assumes "mode options = ''highlight''"
  shows "\<exists>out. processDuplicates rows options = StyledRows out \<and>
           length out = length rows \<and>
           (\<forall>i<length rows. length (out ! i) = length (rows ! i) \<and>
              (\<forall>j<length (rows ! i).
                 if rows ! i ! j = JHole then out ! i ! j = None
                 else \<exists>c. out ! i ! j = Some c \<and> cell_v c = rows ! i ! j \<and>
                        cell_s c =
                          (if i \<in> duplicatesIndices (scan options rows) \<and> i \<noteq> 0
                           then Some \<lparr>fill_rgb = ''FFFF00'', font_rgb = ''000000'',
                                      font_bold = False,
                                      border_top = \<lparr>edge_style = ''thin'', edge_rgb = ''000000''\<rparr>,
                                      border_bottom = \<lparr>edge_style = ''thin'', edge_rgb = ''000000''\<rparr>,
                                      border_left = \<lparr>edge_style = ''thin'', edge_rgb = ''000000''\<rparr>,
                                      border_right = \<lparr>edge_style = ''thin'', edge_rgb = ''000000''\<rparr>\<rparr>
                           else None)))"
proof -
  let ?D = "duplicatesIndices (scan options rows)"
  let ?out = "mapIndexed (styleRow ?D) rows 0"
  have "processDuplicates rows options = StyledRows ?out"
    using assms by (simp add: processDuplicates_def)
  moreover have "length ?out = length rows"
    by (rule length_mapIndexed)
  moreover have "\<forall>i<length rows. ?out ! i = map (styleCell (i \<in> ?D \<and> i \<noteq> 0)) (rows ! i)"
    by (simp add: nth_mapIndexed styleRow_def)
  ultimately show ?thesis
    by (intro exI [of _ ?out])
       (auto simp: styleCell_def highlightStyle_def thinBlack_def split: cell.splits)
qed

text \<open>At a table whose third row repeats the first column of the second, which has a
  hole.\<close>

theorem highlight_output_witness:
  "mode \<lparr>criteria = ''col1'', mode = ''highlight''\<rparr> = ''highlight'' \<and>
   (\<exists>out. processDuplicates [[JStr ''id''], [JStr ''a'', JHole, JNum 1], [JStr ''A'']]
             \<lparr>criteria = ''col1'', mode = ''highlight''\<rparr> = StyledRows out \<and>
      length out = 3 \<and>
      out ! 1 ! 1 = None \<and>
      (\<exists>c. out ! 1 ! 0 = Some c \<and> cell_v c = JStr ''a'' \<and> cell_s c = None) \<and>
      (\<exists>c. out ! 2 ! 0 = Some c \<and> cell_v c = JStr ''A'' \<and> cell_s c = Some highlightStyle))"
proof -
  let ?o = "\<lparr>criteria = ''col1'', mode = ''highlight''\<rparr>"
  let ?rows = "[[JStr ''id''], [JStr ''a'', JHole, JNum 1], [JStr ''A'']]"
  have h: "mode ?o = ''highlight''" by simp
  have d: "duplicatesIndices (scan ?o ?rows) = {2}" by code_simp
  from highlight_output [OF h, of ?rows]
  obtain out where out: "processDuplicates ?rows ?o = StyledRows out" "length out = length ?rows"
    and cells: "\<And>i j. i < length ?rows \<Longrightarrow> j < length (?rows ! i) \<Longrightarrow>
                 (if ?rows ! i ! j = JHole then out ! i ! j = None
                 else \<exists>c. out ! i ! j = Some c \<and> cell_v c = ?rows ! i ! j \<and>
                        cell_s c =
                          (if i \<in> duplicatesIndices (scan ?o ?rows) \<and> i \<noteq> 0
                           then Some \<lparr>fill_rgb = ''FFFF00'', font_rgb = ''000000'',
                                      font_bold = False,
                                      border_top = \<lparr>edge_style = ''thin'', edge_rgb = ''000000''\<rparr>,
                                      border_bottom = \<lparr>edge_style = ''thin'', edge_rgb = ''000000''\<rparr>,
                                      border_left = \<lparr>edge_style = ''thin'', edge_rgb = ''000000''\<rparr>,
                                      border_right = \<lparr>edge_style = ''thin'', edge_rgb = ''000000''\<rparr>\<rparr>
                           else None))"
    by blast
  have "out ! 1 ! 1 = None"
    using cells [of 1 1] by simp
  moreover have "\<exists>c. out ! 1 ! 0 = Some c \<and> cell_v c = JStr ''a'' \<and> cell_s c = None"
    using cells [of 1 0] by (simp add: d)
  moreover have "\<exists>c. out ! 2 ! 0 = Some c \<and> cell_v c = JStr ''A'' \<and> cell_s c = Some highlightStyle"
    using cells [of 2 0] by (simp add: d highlightStyle_def thinBlack_def)
  ultimately show ?thesis
    using h out by auto
qed

subsection \<open>Options outside the expected values\<close>

text \<open>
  Claim C4 (as amended): there is no check of the options and no error for them. A
  criterion other than \<^verbatim>\<open>'row'\<close> is handled as the first-column criterion and an
  action other than \<^verbatim>\<open>'remove'\<close> as highlighting, so the operation gives an output
  table for every value of the options.
\<close>

theorem unknown_policy_defaults:
  "processDuplicates rows options =
   processDuplicates rows
     \<lparr>criteria = (if criteria options = ''row'' then ''row'' else ''col1''),
      mode = (if mode options = ''remove'' then ''remove'' else ''highlight'')\<rparr>"
proof -
  let ?o = "\<lparr>criteria = (if criteria options = ''row'' then ''row'' else ''col1''),
      mode = (if mode options = ''remove'' then ''remove'' else ''highlight'')\<rparr>"
  have "scan options rows = scan ?o rows"
    by (rule scan_cong) simp
  then show ?thesis
    by (simp add: processDuplicates_def)
qed

text \<open>At a criterion and an action the caller never passes.\<close>

theorem unknown_policy_defaults_witness:
  "processDuplicates [[JStr ''a''], [JStr ''A '']] \<lparr>criteria = ''column'', mode = ''mark''\<rparr> =
   processDuplicates [[JStr ''a''], [JStr ''A '']] \<lparr>criteria = ''col1'', mode = ''highlight''\<rparr>"
  using unknown_policy_defaults [of "[[JStr ''a''], [JStr ''A '']]" "\<lparr>criteria = ''column'', mode = ''mark''\<rparr>"]
  by simp

text \<open>
  The claim as first stated asks for an \<^verbatim>\<open>InvalidPolicy\<close> error there; the operation
  returns the highlighted table instead.
\<close>

theorem unknown_policy_produces_output:
  "processDuplicates [[JStr ''a''], [JStr ''A '']] \<lparr>criteria = ''column'', mode = ''mark''\<rparr> =
   StyledRows
     [[Some \<lparr>cell_v = JStr ''a'', cell_t = ''s'', cell_s = None\<rparr>],
      [Some \<lparr>cell_v = JStr ''A '', cell_t = ''s'', cell_s = Some highlightStyle\<rparr>]]"
  by code_simp

subsection \<open>The empty table\<close>

text \<open>
  Claim C8: on the empty table the operation returns the empty table, whatever the
  options are; nothing is raised.
\<close>

theorem empty_table:
  "processDuplicates [] options =
     (if mode options = ''remove'' then FinalRows [] else StyledRows [])"
  by (simp add: processDuplicates_def)

text \<open>At both actions.\<close>

theorem empty_table_witness:
  "processDuplicates [] \<lparr>criteria = ''row'', mode = ''remove''\<rparr> = FinalRows [] \<and>
   processDuplicates [] \<lparr>criteria = ''col1'', mode = ''highlight''\<rparr> = StyledRows []"
  using empty_table [of "\<lparr>criteria = ''row'', mode = ''remove''\<rparr>"]
    empty_table [of "\<lparr>criteria = ''col1'', mode = ''highlight''\<rparr>"]
  by simp

subsection \<open>Empty keys\<close>

text \<open>
  Claim C6: a row whose key is empty (a row with no cell under the row criterion; a first
  cell that is missing or holds white space only under the first-column criterion) is not
  flagged and its key is not in the set of seen keys. In particular, under the
  first-column criterion a table whose first cells are all empty has no flagged row.
\<close>

theorem empty_key_rows_never_flagged:
  "(i < length rows \<and>
    (if criteria options = ''row'' then rows ! i = [] else emptyFirstCell (rows ! i)) \<longrightarrow>
      i \<notin> duplicatesIndices (scan options rows) \<and>
      rowKey options (rows ! i) \<notin> seen (scan options rows)) \<and>
   (criteria options \<noteq> ''row'' \<and> list_all emptyFirstCell rows \<longrightarrow>
      duplicatesIndices (scan options rows) = {})"
proof (intro conjI impI)
  assume a: "i < length rows \<and>
    (if criteria options = ''row'' then rows ! i = [] else emptyFirstCell (rows ! i))"
  then have "skipped (rowKey options (rows ! i))"
    by (intro skipped_empty_key) simp
  then show "i \<notin> duplicatesIndices (scan options rows)"
    and "rowKey options (rows ! i) \<notin> seen (scan options rows)"
    by (simp_all add: skipped_not_flagged)
next
  assume a: "criteria options \<noteq> ''row'' \<and> list_all emptyFirstCell rows"
  have "n \<notin> duplicatesIndices (scan options rows)" for n
  proof (cases "n < length rows")
    case True
    with a have "emptyFirstCell (rows ! n)"
      by (simp add: list_all_length)
    with a have "skipped (rowKey options (rows ! n))"
      by (intro skipped_empty_key) simp
    then show ?thesis by (simp add: skipped_not_flagged)
  next
    case False
    then show ?thesis by (simp add: dups_scan_earlier_iff)
  qed
  then show "duplicatesIndices (scan options rows) = {}" by blast
qed

text \<open>At a table of empty first cells under the first-column criterion, and at an empty
  row under the row criterion.\<close>

theorem empty_key_rows_never_flagged_witness:
  "(1::nat) < length [[JStr ''  ''], [JHole, JNum 1], [], [JStr [], JNum 2]] \<and>
   emptyFirstCell ([[JStr ''  ''], [JHole, JNum 1], [], [JStr [], JNum 2]] ! 1) \<and>
   1 \<notin> duplicatesIndices (scan \<lparr>criteria = ''col1'', mode = ''remove''\<rparr>
          [[JStr ''  ''], [JHole, JNum 1], [], [JStr [], JNum 2]]) \<and>
   rowKey \<lparr>criteria = ''col1'', mode = ''remove''\<rparr>
       ([[JStr ''  ''], [JHole, JNum 1], [], [JStr [], JNum 2]] ! 1)
     \<notin> seen (scan \<lparr>criteria = ''col1'', mode = ''remove''\<rparr>
          [[JStr ''  ''], [JHole, JNum 1], [], [JStr [], JNum 2]]) \<and>
   list_all emptyFirstCell [[JStr ''  ''], [JHole, JNum 1], [], [JStr [], JNum 2]] \<and>
   duplicatesIndices (scan \<lparr>criteria = ''col1'', mode = ''remove''\<rparr>
          [[JStr ''  ''], [JHole, JNum 1], [], [JStr [], JNum 2]]) = {} \<and>
   (2::nat) < length [[JStr ''x''], [], []] \<and> [[JStr ''x''], [], []] ! 2 = [] \<and>
   2 \<notin> duplicatesIndices (scan \<lparr>criteria = ''row'', mode = ''remove''\<rparr> [[JStr ''x''], [], []])"
proof -
  let ?o = "\<lparr>criteria = ''col1'', mode = ''remove''\<rparr>"
  let ?rows = "[[JStr ''  ''], [JHole, JNum 1], [], [JStr [], JNum 2]]"
  let ?o' = "\<lparr>criteria = ''row'', mode = ''remove''\<rparr>"
  let ?rows' = "[[JStr ''x''], [], []] :: cell list list"
  have e: "list_all emptyFirstCell ?rows"
    by (simp add: emptyFirstCell_def isWhiteSpace_def)
  have e1: "emptyFirstCell (?rows ! 1)"
    by (simp add: emptyFirstCell_def)
  show ?thesis
    using empty_key_rows_never_flagged [of 1 ?rows ?o]
      empty_key_rows_never_flagged [of 2 ?rows' ?o'] e e1
    by simp
qed

text \<open>
  Claim C9: under the first-column criterion a first cell that is falsy (the number 0,
  \<^verbatim>\<open>false\<close>, \<^verbatim>\<open>null\<close>, a missing cell) gives the empty key, so its row is not
  flagged and adds nothing to the set of seen keys.
\<close>

theorem falsy_first_cell_is_empty_key:
  assumes "criteria options \<noteq> ''row''" and "i < length rows"
    and "falsy (firstCell (rows ! i))"
  shows "rowKey options (rows ! i) = [] \<and>
         i \<notin> duplicatesIndices (scan options rows) \<and>
         rowKey options (rows ! i) \<notin> seen (scan options rows)"
proof -
  have k: "rowKey options (rows ! i) = []"
    using assms by (simp add: falsy_key)
  then have "skipped (rowKey options (rows ! i))"
    by (simp add: skipped_def)
  with k show ?thesis
    using skipped_not_flagged [of options rows i] by simp
qed

text \<open>At two rows starting with the number 0 and two starting with \<^verbatim>\<open>false\<close>: the
  second of each pair is not flagged.\<close>

theorem falsy_first_cell_is_empty_key_witness:
  "criteria \<lparr>criteria = ''col1'', mode = ''highlight''\<rparr> \<noteq> ''row'' \<and>
   (1::nat) < length [[JNum 0, JStr ''a''], [JNum 0, JStr ''a''], [JBool False], [JBool False]] \<and>
   falsy (firstCell ([[JNum 0, JStr ''a''], [JNum 0, JStr ''a''], [JBool False], [JBool False]] ! 1)) \<and>
   falsy (firstCell ([[JNum 0, JStr ''a''], [JNum 0, JStr ''a''], [JBool False], [JBool False]] ! 3)) \<and>
   rowKey \<lparr>criteria = ''col1'', mode = ''highlight''\<rparr> [JNum 0, JStr ''a''] = [] \<and>
   rowKey \<lparr>criteria = ''col1'', mode = ''highlight''\<rparr> [JBool False] = [] \<and>
   1 \<notin> duplicatesIndices (scan \<lparr>criteria = ''col1'', mode = ''highlight''\<rparr>
          [[JNum 0, JStr ''a''], [JNum 0, JStr ''a''], [JBool False], [JBool False]]) \<and>
   3 \<notin> duplicatesIndices (scan \<lparr>criteria = ''col1'', mode = ''highlight''\<rparr>
          [[JNum 0, JStr ''a''], [JNum 0, JStr ''a''], [JBool False], [JBool False]]) \<and>
   [] \<notin> seen (scan \<lparr>criteria = ''col1'', mode = ''highlight''\<rparr>
          [[JNum 0, JStr ''a''], [JNum 0, JStr ''a''], [JBool False], [JBool False]])"
proof -
  let ?o = "\<lparr>criteria = ''col1'', mode = ''highlight''\<rparr>"
  let ?rows = "[[JNum 0, JStr ''a''], [JNum 0, JStr ''a''], [JBool False], [JBool False]]"
  have c: "criteria ?o \<noteq> ''row''" by simp
  have f1: "falsy (firstCell (?rows ! 1))" by (simp add: firstCell_def)
  have f3: "falsy (firstCell (?rows ! 3))" by (simp add: firstCell_def)
  show ?thesis
    using falsy_first_cell_is_empty_key [OF c _ f1] falsy_first_cell_is_empty_key [OF c _ f3] f1 f3
    by auto
qed

text \<open>
  Claim C10: under the row criterion the callback's test drops the row with no cell and
  no other. A row of \<open>n > 0\<close> empty strings has a key that passes the test, so the later
  of two such rows is flagged: it is among the rows left out under \<^verbatim>\<open>remove\<close>, and
  each of its cells carries the style under any other action.
\<close>

theorem full_row_only_empty_row_exempt:
  assumes "criteria options = ''row''"
  shows "(\<forall>row. (rowKey options row = [] \<or> rowKey options row = ''[]'') = (row = [])) \<and>
         (i < j \<and> j < length rows \<and> 0 < n \<and>
          rows ! i = replicate n (JStr []) \<and> rows ! j = replicate n (JStr []) \<longrightarrow>
            j \<in> duplicatesIndices (scan options rows) \<and>
            (mode options = ''remove'' \<longrightarrow>
               processDuplicates rows options =
                 FinalRows (nths rows (- duplicatesIndices (scan options rows)))) \<and>
            (mode options \<noteq> ''remove'' \<longrightarrow>
               (\<exists>out. processDuplicates rows options = StyledRows out \<and>
                  out ! j = replicate n
                    (Some \<lparr>cell_v = JStr [], cell_t = ''s'', cell_s = Some highlightStyle\<rparr>))))"
proof (intro conjI allI impI)
  fix row
  show "(rowKey options row = [] \<or> rowKey options row = ''[]'') = (row = [])"
    using fullRow_skipped_iff [OF assms, of row] by (simp add: skipped_def)
next
  assume a: "i < j \<and> j < length rows \<and> 0 < n \<and>
          rows ! i = replicate n (JStr []) \<and> rows ! j = replicate n (JStr [])"
  then have "rows ! j \<noteq> []" by auto
  then have "\<not> skipped (rowKey options (rows ! j))"
    by (simp add: fullRow_skipped_iff [OF assms])
  moreover have "\<exists>k<j. rowKey options (rows ! k) = rowKey options (rows ! j)"
    using a by (intro exI [of _ i]) simp
  ultimately show j: "j \<in> duplicatesIndices (scan options rows)"
    using a by (simp add: dups_scan_earlier_iff)
  {
    assume "mode options = ''remove''"
    then show "processDuplicates rows options =
                 FinalRows (nths rows (- duplicatesIndices (scan options rows)))"
      by (rule processDuplicates_remove_nths)
  }
  {
    assume m: "mode options \<noteq> ''remove''"
    from a have "j \<noteq> 0" by simp
    with j a processDuplicates_highlight_nth [OF m, of j rows]
    show "\<exists>out. processDuplicates rows options = StyledRows out \<and>
                  out ! j = replicate n
                    (Some \<lparr>cell_v = JStr [], cell_t = ''s'', cell_s = Some highlightStyle\<rparr>)"
      by (auto simp: styleCell_def typeTag_def)
  }
qed

text \<open>At two rows of two empty strings, under both actions.\<close>

theorem full_row_only_empty_row_exempt_witness:
  "criteria \<lparr>criteria = ''row'', mode = ''remove''\<rparr> = ''row'' \<and>
   rowKey \<lparr>criteria = ''row'', mode = ''remove''\<rparr> [JStr [], JStr []] \<noteq> [] \<and>
   rowKey \<lparr>criteria = ''row'', mode = ''remove''\<rparr> [JStr [], JStr []] \<noteq> ''[]'' \<and>
   (1::nat) < 2 \<and> (2::nat) < length [[JStr ''h''], [JStr [], JStr []], [JStr [], JStr []]] \<and>
   (0::nat) < 2 \<and>
   [[JStr ''h''], [JStr [], JStr []], [JStr [], JStr []]] ! 1 = replicate 2 (JStr []) \<and>
   [[JStr ''h''], [JStr [], JStr []], [JStr [], JStr []]] ! 2 = replicate 2 (JStr []) \<and>
   2 \<in> duplicatesIndices (scan \<lparr>criteria = ''row'', mode = ''remove''\<rparr>
          [[JStr ''h''], [JStr [], JStr []], [JStr [], JStr []]]) \<and>
   processDuplicates [[JStr ''h''], [JStr [], JStr []], [JStr [], JStr []]]
       \<lparr>criteria = ''row'', mode = ''remove''\<rparr> =
     FinalRows (nths [[JStr ''h''], [JStr [], JStr []], [JStr [], JStr []]]
       (- duplicatesIndices (scan \<lparr>criteria = ''row'', mode = ''remove''\<rparr>
            [[JStr ''h''], [JStr [], JStr []], [JStr [], JStr []]]))) \<and>
   (\<exists>out. processDuplicates [[JStr ''h''], [JStr [], JStr []], [JStr [], JStr []]]
       \<lparr>criteria = ''row'', mode = ''highlight''\<rparr> = StyledRows out \<and>
      out ! 2 = replicate 2
        (Some \<lparr>cell_v = JStr [], cell_t = ''s'', cell_s = Some highlightStyle\<rparr>))"
proof -
  let ?o = "\<lparr>criteria = ''row'', mode = ''remove''\<rparr>"
  let ?o' = "\<lparr>criteria = ''row'', mode = ''highlight''\<rparr>"
  let ?rows = "[[JStr ''h''], [JStr [], JStr []], [JStr [], JStr []]]"
  have c: "criteria ?o = ''row''" and c': "criteria ?o' = ''row''" by simp_all
  have r: "?rows ! 1 = replicate 2 (JStr [])" "?rows ! 2 = replicate 2 (JStr [])"
    by (simp_all add: numeral_2_eq_2)
  have k: "rowKey ?o [JStr [], JStr []] \<noteq> [] \<and> rowKey ?o [JStr [], JStr []] \<noteq> ''[]''"
    using full_row_only_empty_row_exempt [OF c, of 1 2 ?rows 2] by blast
  have rm: "2 \<in> duplicatesIndices (scan ?o ?rows) \<and>
      processDuplicates ?rows ?o = FinalRows (nths ?rows (- duplicatesIndices (scan ?o ?rows)))"
    using full_row_only_empty_row_exempt [OF c, of 1 2 ?rows 2] r by simp
  have hl: "\<exists>out. processDuplicates ?rows ?o' = StyledRows out \<and>
      out ! 2 = replicate 2
        (Some \<lparr>cell_v = JStr [], cell_t = ''s'', cell_s = Some highlightStyle\<rparr>)"
    using full_row_only_empty_row_exempt [OF c', of 1 2 ?rows 2] r by simp
  show ?thesis
    using c k r rm hl by simp
qed

end
